theory Spec2Isabelle
  imports Main
begin

section \<open>Data delivered by the remote procedures\<close>

text \<open>
  \<^verbatim>\<open>PostWithAuthor\<close> is one element of what \<^verbatim>\<open>api.post.getAll\<close> returns. The page reads
  \<^verbatim>\<open>post.id\<close>, \<^verbatim>\<open>post.content\<close>, \<^verbatim>\<open>post.createdAt\<close>, \<^verbatim>\<open>author.username\<close> and
  \<^verbatim>\<open>author.profileImageUrl\<close>; the fields carry the name of their record as a prefix,
  since \<^verbatim>\<open>id\<close> and \<^verbatim>\<open>content\<close> are taken.
\<close>

record Post =
  post_id :: string
  post_content :: string
  post_createdAt :: int

record Author =
  author_username :: string
  author_profileImageUrl :: string

record PostWithAuthor =
  post :: Post
  author :: Author

section \<open>The feed: \<^verbatim>\<open>Feed\<close>\<close>

text \<open>
  What \<^verbatim>\<open>api.post.getAll.useQuery()\<close> hands to the component, as far as \<^verbatim>\<open>Feed\<close> reads
  it: \<^verbatim>\<open>posts.isLoading\<close> and \<^verbatim>\<open>posts.data\<close> (an array, or \<^verbatim>\<open>undefined\<close>: \<open>None\<close>).
\<close>

record posts_query =
  isLoading :: bool
  data :: "PostWithAuthor list option"

text \<open>
  \<^verbatim>\<open>useQuery\<close> reports \<^verbatim>\<open>isLoading\<close> only for a query in its loading status, which has no
  data yet: of the four pairs the two fields can form, it never hands over a loading
  entry that holds data.
\<close>

definition useQuery_result :: "posts_query \<Rightarrow> bool" where
  "useQuery_result posts = (isLoading posts \<longrightarrow> data posts = None)"

text \<open>
  \<^verbatim>\<open><PostView key={postWithAuthor.post.id} {...postWithAuthor} />\<close>: the element that
  \<^verbatim>\<open>Feed\<close> creates for one entry, its key and the props spread into it.
\<close>

record PostView_element =
  key :: string
  props :: PostWithAuthor

text \<open>
  The three things \<^verbatim>\<open>Feed\<close> returns: \<^verbatim>\<open><LoadingPage size={64} />\<close>, a \<^verbatim>\<open>div\<close> holding a
  text, and the \<^verbatim>\<open>div\<close> (\<^verbatim>\<open>flex flex-col\<close>) holding the post views.
\<close>

datatype feed_view =
  LoadingPage nat
  | Div_text string
  | Div_flex_col "PostView_element list"

text \<open>
  \<^verbatim>\<open>if (posts.isLoading) return <LoadingPage size={64} />;\<close>
  \<^verbatim>\<open>if (!posts.data) return <div>Something went wrong...</div>;\<close>
  \<^verbatim>\<open>return <div ...>{posts.data?.map(...)}</div>\<close>.
  A JavaScript array is truthy also when it is empty, so \<^verbatim>\<open>!posts.data\<close> holds for
  \<^verbatim>\<open>undefined\<close> only.
\<close>

definition Feed :: "posts_query \<Rightarrow> feed_view" where
  "Feed posts =
     (if isLoading posts then LoadingPage 64
      else case data posts of
        None \<Rightarrow> Div_text ''Something went wrong...''
      | Some d \<Rightarrow>
          Div_flex_col
            (map (\<lambda>postWithAuthor.
                    \<lparr>key = post_id (post postWithAuthor), props = postWithAuthor\<rparr>) d))"

fun is_loading_state :: "feed_view \<Rightarrow> bool" where
  "is_loading_state (LoadingPage n) = True"
| "is_loading_state (Div_text t) = False"
| "is_loading_state (Div_flex_col els) = False"

fun is_failure_state :: "feed_view \<Rightarrow> bool" where
  "is_failure_state (LoadingPage n) = False"
| "is_failure_state (Div_text t) = True"
| "is_failure_state (Div_flex_col els) = False"

section \<open>The create call's error\<close>

text \<open>
  The error handed to \<^verbatim>\<open>onError\<close>, as far as the handler reads it: \<^verbatim>\<open>e.data\<close> (the field
  \<open>error_data\<close>, as \<open>data\<close> is the query's; absent: \<open>None\<close>), its \<^verbatim>\<open>zodError\<close> (\<^verbatim>\<open>null\<close> when the failure is not one of validation), and
  in the flattened validation error \<^verbatim>\<open>fieldErrors.content\<close>, the messages for the one
  field of the create call's input (absent when that field passed).
\<close>

record zod_fieldErrors =
  content :: "string list option"

record zod_flattened_error =
  formErrors :: "string list"
  fieldErrors :: zod_fieldErrors

record trpc_error_data =
  zodError :: "zod_flattened_error option"

record TRPCClientError =
  error_data :: "trpc_error_data option"

section \<open>The submission form: \<^verbatim>\<open>CreatePostWizard\<close>\<close>

text \<open>
  What the handlers of the component do, in the order they do it. The promise that
  \<^verbatim>\<open>ctx.post.getAll.invalidate()\<close> returns is either dropped (\<^verbatim>\<open>void\<close>) or waited for.
\<close>

datatype promise_use = Discarded | Awaited

datatype effect =
  SetInput string
  | Invalidate_post_getAll promise_use
  | Toast_error string
  | Console_log string "trpc_error_data option"
  | PreventDefault
  | Mutate string

text \<open>
  \<^verbatim>\<open>onSuccess: () => { setInput(""); void ctx.post.getAll.invalidate(); }\<close>
\<close>

definition onSuccess :: "effect list" where
  "onSuccess = [SetInput '''', Invalidate_post_getAll Discarded]"

text \<open>
  \<^verbatim>\<open>const errorMessage = e.data?.zodError?.fieldErrors.content;\<close>
\<close>

definition errorMessage :: "TRPCClientError \<Rightarrow> string list option" where
  "errorMessage e =
     (case error_data e of
        None \<Rightarrow> None
      | Some d \<Rightarrow>
          (case zodError d of
             None \<Rightarrow> None
           | Some z \<Rightarrow> content (fieldErrors z)))"

text \<open>
  \<^verbatim>\<open>console.log("zodError", e.data);\<close>
  \<^verbatim>\<open>if (errorMessage?.[0]) toast.error(errorMessage[0]);\<close>
  \<^verbatim>\<open>else toast.error("Too many recent posts! Try again later.");\<close>
  The condition is JavaScript truthiness: \<^verbatim>\<open>errorMessage?.[0]\<close> is \<^verbatim>\<open>undefined\<close> when the
  list is absent or empty, and a string is truthy when it is not the empty string.
\<close>

definition onError :: "TRPCClientError \<Rightarrow> effect list" where
  "onError e =
     Console_log ''zodError'' (error_data e) #
     (case errorMessage e of
        None \<Rightarrow> [Toast_error ''Too many recent posts! Try again later.'']
      | Some [] \<Rightarrow> [Toast_error ''Too many recent posts! Try again later.'']
      | Some (m # ms) \<Rightarrow>
          (if m \<noteq> '''' then [Toast_error m]
           else [Toast_error ''Too many recent posts! Try again later.'']))"

text \<open>
  The state of one mounted component: \<^verbatim>\<open>input\<close> (\<^verbatim>\<open>useState("")\<close>), \<^verbatim>\<open>user\<close> (from
  \<^verbatim>\<open>useUser()\<close>, \<open>None\<close> for \<^verbatim>\<open>null\<close> and \<^verbatim>\<open>undefined\<close>) and \<^verbatim>\<open>isPosting\<close> (the mutation's
  \<^verbatim>\<open>isLoading\<close>). \<open>in_flight\<close> counts the create calls sent and not yet settled.
\<close>

record user_resource =
  profileImageUrl :: string

record wizard_state =
  input :: string
  user :: "user_resource option"
  isPosting :: bool
  in_flight :: nat

text \<open>
  What the component renders for a signed-in user: the profile image, the text field
  (\<^verbatim>\<open>value={input}\<close>, \<^verbatim>\<open>disabled={isPosting}\<close>), the Post button when it is rendered (with
  its \<^verbatim>\<open>disabled\<close> attribute) and whether the spinner is shown.
\<close>

record wizard_view =
  image_src :: string
  input_value :: string
  input_disabled :: bool
  post_button :: "bool option"
  loading_spinner :: bool

text \<open>
  \<^verbatim>\<open>if (!user) return null;\<close> and then the JSX: the button under
  \<^verbatim>\<open>input !== "" && !isPosting\<close>, the spinner under \<^verbatim>\<open>isPosting\<close>.
\<close>

definition CreatePostWizard :: "wizard_state \<Rightarrow> wizard_view option" where
  "CreatePostWizard s =
     (case user s of
        None \<Rightarrow> None
      | Some u \<Rightarrow>
          Some \<lparr>image_src = profileImageUrl u,
                input_value = input s,
                input_disabled = isPosting s,
                post_button = (if input s \<noteq> '''' \<and> \<not> isPosting s then Some (isPosting s) else None),
                loading_spinner = isPosting s\<rparr>)"

text \<open>
  The three handlers of the JSX, closed over the state of the render they belong to.
  \<^verbatim>\<open>onChange={(e) => setInput(e.target.value)}\<close>
\<close>

definition onChange :: "string \<Rightarrow> effect list" where
  "onChange v = [SetInput v]"

text \<open>
  \<^verbatim>\<open>if (e.key === "Enter") { e.preventDefault(); if (input !== "") mutate({ content: input }); }\<close>
\<close>

definition onKeyDown :: "wizard_state \<Rightarrow> string \<Rightarrow> effect list" where
  "onKeyDown s k =
     (if k = ''Enter''
      then PreventDefault # (if input s \<noteq> '''' then [Mutate (input s)] else [])
      else [])"

text \<open>
  \<^verbatim>\<open>onClick={() => mutate({ content: input })}\<close>
\<close>

definition onClick :: "wizard_state \<Rightarrow> effect list" where
  "onClick s = [Mutate (input s)]"

text \<open>
  What the user can do to the rendered form, and which handler the browser calls for it.
  A key or a change reaches the text field only when the field is rendered and not
  disabled (a disabled field holds no focus); a click reaches the button only when the
  button is rendered and not disabled. Nothing is rendered for \<open>None\<close>, so nothing can be
  called.
\<close>

datatype ui_event = KeyDown string | Change string | Click

definition deliver :: "wizard_state \<Rightarrow> ui_event \<Rightarrow> effect list" where
  "deliver s ev =
     (case CreatePostWizard s of
        None \<Rightarrow> []
      | Some v \<Rightarrow>
          (case ev of
             KeyDown k \<Rightarrow> if input_disabled v then [] else onKeyDown s k
           | Change t \<Rightarrow> if input_disabled v then [] else onChange t
           | Click \<Rightarrow>
               (case post_button v of
                  None \<Rightarrow> []
                | Some d \<Rightarrow> if d then [] else onClick s)))"

text \<open>
  What an effect does to the component's state: \<^verbatim>\<open>setInput\<close> replaces the draft,
  \<^verbatim>\<open>mutate\<close> sends a create call, which puts the mutation into its loading state. The
  other effects leave the component's state alone (they go to the query cache, the
  toaster, the console and the key event).
\<close>

fun perform :: "wizard_state \<Rightarrow> effect \<Rightarrow> wizard_state" where
  "perform s (SetInput v) = s\<lparr>input := v\<rparr>"
| "perform s (Mutate c) = s\<lparr>isPosting := True, in_flight := Suc (in_flight s)\<rparr>"
| "perform s (Invalidate_post_getAll p) = s"
| "perform s (Toast_error m) = s"
| "perform s (Console_log l d) = s"
| "perform s PreventDefault = s"

text \<open>
  A create call that settles leaves the loading state and is no longer in flight; then
  the mutation calls \<^verbatim>\<open>onSuccess\<close> or \<^verbatim>\<open>onError\<close>.
\<close>

definition settle :: "wizard_state \<Rightarrow> wizard_state" where
  "settle s = s\<lparr>isPosting := False, in_flight := in_flight s - 1\<rparr>"

datatype event = UI ui_event | Create_succeeded | Create_failed TRPCClientError

text \<open>
  One event: the state after it and the effects it caused, in order. The form is
  rendered again after every event, so the next event meets the view of the new state.
  A create call can settle only while one is in flight.
\<close>

definition step :: "wizard_state \<Rightarrow> event \<Rightarrow> wizard_state \<times> effect list" where
  "step s ev =
     (case ev of
        UI u \<Rightarrow> (foldl perform s (deliver s u), deliver s u)
      | Create_succeeded \<Rightarrow>
          if in_flight s = 0 then (s, [])
          else (foldl perform (settle s) onSuccess, onSuccess)
      | Create_failed e \<Rightarrow>
          if in_flight s = 0 then (s, [])
          else (foldl perform (settle s) (onError e), onError e))"

fun run :: "wizard_state \<Rightarrow> event list \<Rightarrow> wizard_state \<times> effect list" where
  "run s [] = (s, [])"
| "run s (ev # evs) =
     (case step s ev of
        (s1, fx1) \<Rightarrow> (case run s1 evs of (s2, fx2) \<Rightarrow> (s2, fx1 @ fx2)))"

text \<open>
  The component as it mounts: \<^verbatim>\<open>useState("")\<close>, no create call sent.
\<close>

definition mount :: "user_resource option \<Rightarrow> wizard_state" where
  "mount u = \<lparr>input = '''', user = u, isPosting = False, in_flight = 0\<rparr>"

text \<open>
  Reading a list of effects: the messages shown to the user, and the contents of the
  create calls sent.
\<close>

fun toasts :: "effect list \<Rightarrow> string list" where
  "toasts [] = []"
| "toasts (Toast_error m # fx) = m # toasts fx"
| "toasts (x # fx) = toasts fx"

fun creates :: "effect list \<Rightarrow> string list" where
  "creates [] = []"
| "creates (Mutate c # fx) = c # creates fx"
| "creates (x # fx) = creates fx"

text \<open>
  The two ways to submit: the Enter key in the text field and the Post button.
\<close>

fun is_submit :: "ui_event \<Rightarrow> bool" where
  "is_submit (KeyDown k) = (k = ''Enter'')"
| "is_submit (Change t) = False"
| "is_submit Click = True"

text \<open>
  Whether the text field can hold the focus: it is rendered and not disabled.
\<close>

definition input_focusable :: "wizard_state \<Rightarrow> bool" where
  "input_focusable s =
     (case CreatePostWizard s of None \<Rightarrow> False | Some v \<Rightarrow> \<not> input_disabled v)"

text \<open>
  The number of create calls in flight agrees with the mutation's loading state.
\<close>

definition in_flight_inv :: "wizard_state \<Rightarrow> bool" where
  "in_flight_inv s = (in_flight s = (if isPosting s then 1 else 0))"

section \<open>Sample data\<close>

text \<open>
  Four delivered entries for the examples: out of order by id, one of them twice, and
  not the same read backwards.
\<close>

definition sample_posts :: "PostWithAuthor list" where
  "sample_posts =
     [\<lparr>post = \<lparr>post_id = ''p2'', post_content = ''b'', post_createdAt = 20\<rparr>,
       author = \<lparr>author_username = ''ann'', author_profileImageUrl = ''u1''\<rparr>\<rparr>,
      \<lparr>post = \<lparr>post_id = ''p1'', post_content = ''a'', post_createdAt = 10\<rparr>,
       author = \<lparr>author_username = ''bob'', author_profileImageUrl = ''u2''\<rparr>\<rparr>,
      \<lparr>post = \<lparr>post_id = ''p3'', post_content = ''c'', post_createdAt = 30\<rparr>,
       author = \<lparr>author_username = ''bob'', author_profileImageUrl = ''u2''\<rparr>\<rparr>,
      \<lparr>post = \<lparr>post_id = ''p2'', post_content = ''b'', post_createdAt = 20\<rparr>,
       author = \<lparr>author_username = ''ann'', author_profileImageUrl = ''u1''\<rparr>\<rparr>]"

text \<open>
  A signed-in user with the draft \<open>''hi''\<close>, before and after submitting it, and a
  validation error whose messages for \<^verbatim>\<open>content\<close> are \<open>ms\<close>.
\<close>

definition sample_user :: user_resource where
  "sample_user = \<lparr>profileImageUrl = ''https://img/u1''\<rparr>"

definition sample_idle :: wizard_state where
  "sample_idle = \<lparr>input = ''hi'', user = Some sample_user, isPosting = False, in_flight = 0\<rparr>"

definition sample_pending :: wizard_state where
  "sample_pending = \<lparr>input = ''hi'', user = Some sample_user, isPosting = True, in_flight = 1\<rparr>"

definition sample_validation_error :: "string list \<Rightarrow> TRPCClientError" where
  "sample_validation_error ms =
     \<lparr>error_data = Some \<lparr>zodError = Some \<lparr>formErrors = [], fieldErrors = \<lparr>content = Some ms\<rparr>\<rparr>\<rparr>\<rparr>"

section \<open>Properties of the feed\<close>

lemma Feed_loading: "isLoading q \<Longrightarrow> Feed q = LoadingPage 64"
  by (simp add: Feed_def)

lemma Feed_absent: "\<not> isLoading q \<Longrightarrow> data q = None \<Longrightarrow> Feed q = Div_text ''Something went wrong...''"
  by (simp add: Feed_def)

lemma Feed_present:
  "\<not> isLoading q \<Longrightarrow> data q = Some xs \<Longrightarrow>
     Feed q = Div_flex_col (map (\<lambda>p. \<lparr>key = post_id (post p), props = p\<rparr>) xs)"
  by (simp add: Feed_def)

lemma props_of_elements:
  "map props (map (\<lambda>p. \<lparr>key = post_id (post p), props = p\<rparr>) xs) = xs"
  by (induction xs) simp_all

lemma key_of_elements:
  "map key (map (\<lambda>p. \<lparr>key = post_id (post p), props = p\<rparr>) xs) = map (\<lambda>p. post_id (post p)) xs"
  by (induction xs) simp_all

text \<open>
  C7: for every entry that \<^verbatim>\<open>useQuery\<close> can hand over, \<^verbatim>\<open>Feed\<close> renders the loading state
  when the entry is loading and has no data yet, and the generic failure state
  ("Something went wrong...") when it is not loading and has no data; the loading state
  is rendered in no other case, and neither is the failure state.
\<close>

theorem Feed_loading_and_failure_states:
  assumes "useQuery_result q"
  shows "(isLoading q \<and> data q = None \<longrightarrow> Feed q = LoadingPage 64)
         \<and> (\<not> isLoading q \<and> data q = None \<longrightarrow> Feed q = Div_text ''Something went wrong...'')
         \<and> is_loading_state (Feed q) = (isLoading q \<and> data q = None)
         \<and> is_failure_state (Feed q) = (\<not> isLoading q \<and> data q = None)"
proof (cases "isLoading q")
  case True
  with assms have "data q = None"
    by (simp add: useQuery_result_def)
  with True show ?thesis
    by (simp add: Feed_loading)
next
  case False
  then show ?thesis
    by (cases "data q") (simp_all add: Feed_absent Feed_present)
qed

text \<open>
  The three kinds of entry: loading, failed without data, and loaded.
\<close>

theorem Feed_loading_and_failure_states_witness:
  "useQuery_result \<lparr>isLoading = True, data = None\<rparr>
   \<and> Feed \<lparr>isLoading = True, data = None\<rparr> = LoadingPage 64
   \<and> useQuery_result \<lparr>isLoading = False, data = None\<rparr>
   \<and> Feed \<lparr>isLoading = False, data = None\<rparr> = Div_text ''Something went wrong...''
   \<and> useQuery_result \<lparr>isLoading = False, data = Some sample_posts\<rparr>
   \<and> \<not> is_loading_state (Feed \<lparr>isLoading = False, data = Some sample_posts\<rparr>)
   \<and> \<not> is_failure_state (Feed \<lparr>isLoading = False, data = Some sample_posts\<rparr>)"
proof -
  have a: "useQuery_result \<lparr>isLoading = True, data = None\<rparr>"
    by (simp add: useQuery_result_def)
  have b: "useQuery_result \<lparr>isLoading = False, data = None\<rparr>"
    by (simp add: useQuery_result_def)
  have c: "useQuery_result \<lparr>isLoading = False, data = Some sample_posts\<rparr>"
    by (simp add: useQuery_result_def)
  from Feed_loading_and_failure_states [OF a] Feed_loading_and_failure_states [OF b]
       Feed_loading_and_failure_states [OF c] a b c
  show ?thesis
    by simp
qed

text \<open>
  C8: for a delivered sequence \<open>xs\<close> (the entry is not loading), \<^verbatim>\<open>Feed\<close> renders the
  populated state with one post view per element of \<open>xs\<close>, in the order of \<open>xs\<close>: the
  props of the views are \<open>xs\<close> itself, so nothing is sorted, dropped or merged, and each
  view's key is the id of its post.
\<close>

theorem Feed_delivered_order:
  assumes "data q = Some xs" and "\<not> isLoading q"
  shows "\<exists>els. Feed q = Div_flex_col els
           \<and> length els = length xs
           \<and> map props els = xs
           \<and> map key els = map (\<lambda>p. post_id (post p)) xs"
proof -
  let ?els = "map (\<lambda>p. \<lparr>key = post_id (post p), props = p\<rparr>) xs"
  have "Feed q = Div_flex_col ?els"
    using assms by (simp add: Feed_present)
  moreover have "length ?els = length xs"
    by simp
  moreover have "map props ?els = xs"
    by (rule props_of_elements)
  moreover have "map key ?els = map (\<lambda>p. post_id (post p)) xs"
    by (rule key_of_elements)
  ultimately show ?thesis
    by blast
qed

text \<open>
  On the four sample entries the four views come out as delivered, the repeated entry
  twice.
\<close>

theorem Feed_delivered_order_witness:
  "\<exists>els. Feed \<lparr>isLoading = False, data = Some sample_posts\<rparr> = Div_flex_col els
         \<and> length els = 4
         \<and> map props els = sample_posts
         \<and> map key els = [''p2'', ''p1'', ''p3'', ''p2'']"
proof -
  have d: "data \<lparr>isLoading = False, data = Some sample_posts\<rparr> = Some sample_posts"
    by simp
  have l: "\<not> isLoading \<lparr>isLoading = False, data = Some sample_posts\<rparr>"
    by simp
  have n: "length sample_posts = 4"
    by (simp add: sample_posts_def)
  have k: "map (\<lambda>p. post_id (post p)) sample_posts = [''p2'', ''p1'', ''p3'', ''p2'']"
    by (simp add: sample_posts_def)
  from Feed_delivered_order [OF d l] n k show ?thesis
    by simp
qed

text \<open>
  C9: when the query has completed with the empty sequence (not loading, data \<open>[]\<close>),
  \<^verbatim>\<open>Feed\<close> renders the populated state with no post view, not the failure state; the
  failure state is what absent data gives.
\<close>

theorem Feed_empty_is_populated:
  "Feed \<lparr>isLoading = False, data = Some []\<rparr> = Div_flex_col []
   \<and> \<not> is_failure_state (Feed \<lparr>isLoading = False, data = Some []\<rparr>)
   \<and> is_failure_state (Feed \<lparr>isLoading = False, data = None\<rparr>)
   \<and> Feed \<lparr>isLoading = False, data = Some []\<rparr> \<noteq> Feed \<lparr>isLoading = False, data = None\<rparr>"
  by (simp add: Feed_def)

section \<open>Properties of the submission form\<close>

subsection \<open>What reaches the handlers\<close>

lemma deliver_pending: "isPosting s \<Longrightarrow> deliver s ev = []"
  by (simp add: deliver_def CreatePostWizard_def split: option.splits ui_event.splits)

lemma deliver_signed_out: "user s = None \<Longrightarrow> deliver s ev = []"
  by (simp add: deliver_def CreatePostWizard_def)

lemma deliver_idle:
  "\<not> isPosting s \<Longrightarrow> user s = Some u \<Longrightarrow>
     deliver s ev =
       (case ev of
          KeyDown k \<Rightarrow> onKeyDown s k
        | Change t \<Rightarrow> onChange t
        | Click \<Rightarrow> if input s \<noteq> '''' then onClick s else [])"
  by (simp add: deliver_def CreatePostWizard_def split: ui_event.splits)

lemma run_signed_out: "user s = None \<Longrightarrow> run s (map UI us) = (s, [])"
  by (induction us) (simp_all add: step_def deliver_signed_out)

subsection \<open>What the settle handlers do to the state\<close>

lemma perform_onError_state: "foldl perform s (onError e) = s"
  by (simp add: onError_def split: option.splits list.splits)

lemma perform_onSuccess_state: "foldl perform s onSuccess = s\<lparr>input := ''''\<rparr>"
  by (simp add: onSuccess_def)

subsection \<open>The create calls in flight\<close>

lemma step_inv: "in_flight_inv s \<Longrightarrow> in_flight_inv (fst (step s ev))"
proof (cases ev)
  case (UI u)
  show ?thesis if "in_flight_inv s"
  proof (cases "isPosting s")
    case True
    then show ?thesis
      using that UI by (simp add: step_def deliver_pending)
  next
    case False
    show ?thesis
    proof (cases "user s")
      case None
      then show ?thesis
        using that UI by (simp add: step_def deliver_signed_out)
    next
      case (Some w)
      then show ?thesis
        using that UI False
        by (cases u)
           (simp_all add: step_def deliver_idle onKeyDown_def onChange_def onClick_def
              in_flight_inv_def)
    qed
  qed
next
  case Create_succeeded
  then show ?thesis if "in_flight_inv s"
    using that by (simp add: step_def perform_onSuccess_state settle_def in_flight_inv_def)
next
  case (Create_failed e)
  then show ?thesis if "in_flight_inv s"
    using that by (simp add: step_def perform_onError_state settle_def in_flight_inv_def)
qed

lemma fst_run_Cons: "fst (run s (ev # evs)) = fst (run (fst (step s ev)) evs)"
  by (cases "step s ev"; cases "run (fst (step s ev)) evs") simp

lemma run_inv: "in_flight_inv s \<Longrightarrow> in_flight_inv (fst (run s evs))"
proof (induction evs arbitrary: s)
  case Nil
  then show ?case by simp
next
  case (Cons ev evs)
  from Cons.prems have "in_flight_inv (fst (step s ev))"
    by (rule step_inv)
  then have "in_flight_inv (fst (run (fst (step s ev)) evs))"
    by (rule Cons.IH)
  then show ?case
    by (simp only: fst_run_Cons)
qed

lemma mount_inv: "in_flight_inv (mount u)"
  by (simp add: mount_def in_flight_inv_def)

lemma in_flight_le_1: "in_flight (fst (run (mount u) evs)) \<le> 1"
  using run_inv [OF mount_inv, of u evs] by (simp add: in_flight_inv_def split: if_splits)

subsection \<open>Runs of events\<close>

lemma run_pending_UI: "isPosting s \<Longrightarrow> run s (map UI us) = (s, [])"
  by (induction us) (simp_all add: step_def deliver_pending)

lemma fst_run_append: "fst (run s (xs @ ys)) = fst (run (fst (run s xs)) ys)"
proof (induction xs arbitrary: s)
  case Nil
  show ?case by simp
next
  case (Cons x xs)
  have "fst (run s ((x # xs) @ ys)) = fst (run (fst (step s x)) (xs @ ys))"
    by (simp only: append_Cons fst_run_Cons)
  also have "\<dots> = fst (run (fst (run (fst (step s x)) xs)) ys)"
    by (rule Cons.IH)
  also have "\<dots> = fst (run (fst (run s (x # xs))) ys)"
    by (simp only: fst_run_Cons)
  finally show ?case .
qed

lemma fst_run_single: "fst (run s [ev]) = fst (step s ev)"
  by (cases "step s ev") simp

lemma submit_idle:
  "user t \<noteq> None \<Longrightarrow> \<not> isPosting t \<Longrightarrow> input t \<noteq> '''' \<Longrightarrow> is_submit a \<Longrightarrow>
     fst (step t (UI a)) = t\<lparr>isPosting := True, in_flight := Suc (in_flight t)\<rparr>"
  by (cases a) (auto simp: step_def deliver_idle onKeyDown_def onClick_def)

subsection \<open>Success of the create call\<close>

text \<open>
  C1: when a create call in flight succeeds, the effects are exactly two, in this order:
  \<^verbatim>\<open>setInput("")\<close>, then \<^verbatim>\<open>invalidate()\<close> on \<^verbatim>\<open>post.getAll\<close> with its promise dropped, not
  awaited. No invalidation stands before the clearing of the draft, and the draft is empty
  afterwards.
\<close>

theorem create_success_effects:
  assumes "0 < in_flight s"
  shows "snd (step s Create_succeeded) = [SetInput '''', Invalidate_post_getAll Discarded]
         \<and> input (fst (step s Create_succeeded)) = ''''
         \<and> length onSuccess = 2
         \<and> onSuccess ! 0 = SetInput ''''
         \<and> onSuccess ! 1 = Invalidate_post_getAll Discarded
         \<and> Invalidate_post_getAll Awaited \<notin> set onSuccess
         \<and> (\<forall>p. Invalidate_post_getAll p
                \<notin> set (takeWhile (\<lambda>x. x \<noteq> SetInput '''') (snd (step s Create_succeeded))))"
  using assms by (simp add: step_def onSuccess_def)

theorem create_success_effects_witness:
  "snd (step sample_pending Create_succeeded) = [SetInput '''', Invalidate_post_getAll Discarded]
   \<and> fst (step sample_pending Create_succeeded)
       = \<lparr>input = '''', user = Some sample_user, isPosting = False, in_flight = 0\<rparr>"
proof -
  have "0 < in_flight sample_pending"
    by (simp add: sample_pending_def)
  from create_success_effects [OF this] show ?thesis
    by (simp add: step_def onSuccess_def settle_def sample_pending_def)
qed

subsection \<open>Failure of the create call\<close>

text \<open>
  C2, as the claim states it, fails: the list of messages for \<^verbatim>\<open>content\<close> is not empty,
  but its first message is the empty string, which is falsy; the generic message is
  shown, not the first message of the list.
\<close>

theorem create_error_empty_message_counterexample:
  "errorMessage (sample_validation_error ['''']) = Some ['''']
   \<and> toasts (onError (sample_validation_error [''''])) = [''Too many recent posts! Try again later.'']
   \<and> toasts (onError (sample_validation_error [''''])) \<noteq> [hd ['''']]"
  by (simp add: errorMessage_def onError_def sample_validation_error_def)

text \<open>
  C2, amended: when the error carries a list of messages for \<^verbatim>\<open>content\<close> that is not
  empty and whose first message is not the empty string, the one message shown to the
  user is that first message.
\<close>

theorem create_error_first_message:
  assumes "errorMessage e = Some (m # ms)" and "m \<noteq> ''''"
  shows "toasts (onError e) = [m]"
  using assms by (simp add: onError_def)

theorem create_error_first_message_witness:
  "errorMessage (sample_validation_error [''Content too long'']) = Some [''Content too long'']
   \<and> toasts (onError (sample_validation_error [''Content too long''])) = [''Content too long'']"
proof -
  have m: "errorMessage (sample_validation_error [''Content too long''])
             = Some (''Content too long'' # [])"
    by (simp add: errorMessage_def sample_validation_error_def)
  have n: "''Content too long'' \<noteq> ''''"
    by simp
  from create_error_first_message [OF m n] m show ?thesis
    by simp
qed

text \<open>
  C3: when the error carries no list of messages for \<^verbatim>\<open>content\<close>, or an empty one (no
  \<^verbatim>\<open>data\<close>, no \<^verbatim>\<open>zodError\<close>, no entry for the field, or \<open>[]\<close>), the one message shown to the
  user is "Too many recent posts! Try again later.", and nothing else is shown.
\<close>

theorem create_error_fallback:
  assumes "\<nexists>m ms. errorMessage e = Some (m # ms)"
  shows "toasts (onError e) = [''Too many recent posts! Try again later.'']"
  using assms by (simp add: onError_def split: option.splits list.splits)

theorem create_error_fallback_witness:
  "errorMessage \<lparr>error_data = Some \<lparr>zodError = None\<rparr>\<rparr> = None
   \<and> toasts (onError \<lparr>error_data = Some \<lparr>zodError = None\<rparr>\<rparr>)
       = [''Too many recent posts! Try again later.'']"
proof -
  have n: "errorMessage \<lparr>error_data = Some \<lparr>zodError = None\<rparr>\<rparr> = None"
    by (simp add: errorMessage_def)
  then have "\<nexists>m ms. errorMessage \<lparr>error_data = Some \<lparr>zodError = None\<rparr>\<rparr> = Some (m # ms)"
    by simp
  from create_error_fallback [OF this] n show ?thesis
    by simp
qed

text \<open>
  C4: whatever the error, a failed create call leaves the draft as it was: \<^verbatim>\<open>onError\<close>
  never calls \<^verbatim>\<open>setInput\<close>, and the draft after the failure is the draft before it. The
  draft that was submitted from an idle form is still there after the failure, whatever
  the user tried on the form while the call was pending.
\<close>

theorem create_error_keeps_draft:
  "input (fst (step s (Create_failed e))) = input s
   \<and> input (foldl perform s (onError e)) = input s
   \<and> SetInput v \<notin> set (onError e)
   \<and> (user t \<noteq> None \<and> \<not> isPosting t \<and> input t \<noteq> '''' \<and> is_submit a
        \<longrightarrow> input (fst (run t (UI a # map UI us @ [Create_failed e]))) = input t)"
proof -
  have frame: "input (fst (step s (Create_failed e))) = input s" for s
    by (simp add: step_def perform_onError_state settle_def)
  have "input (fst (run t (UI a # map UI us @ [Create_failed e]))) = input t"
    if "user t \<noteq> None" "\<not> isPosting t" "input t \<noteq> ''''" "is_submit a"
  proof -
    let ?p = "t\<lparr>isPosting := True, in_flight := Suc (in_flight t)\<rparr>"
    have a: "fst (step t (UI a)) = ?p"
      using that by (rule submit_idle)
    have b: "fst (run ?p (map UI us)) = ?p"
      by (simp add: run_pending_UI)
    have "fst (run t (UI a # map UI us @ [Create_failed e]))
            = fst (run ?p (map UI us @ [Create_failed e]))"
      by (simp only: fst_run_Cons a)
    also have "\<dots> = fst (run (fst (run ?p (map UI us))) [Create_failed e])"
      by (rule fst_run_append)
    also have "\<dots> = fst (run ?p [Create_failed e])"
      by (simp only: b)
    also have "\<dots> = fst (step ?p (Create_failed e))"
      by (rule fst_run_single)
    finally have "fst (run t (UI a # map UI us @ [Create_failed e]))
                    = fst (step ?p (Create_failed e))" .
    then show ?thesis
      by (simp add: frame)
  qed
  moreover have "input (foldl perform s (onError e)) = input s"
    by (simp add: perform_onError_state)
  moreover have "SetInput v \<notin> set (onError e)"
    by (simp add: onError_def split: option.splits list.splits)
  ultimately show ?thesis
    using frame by blast
qed

theorem create_error_keeps_draft_witness:
  "input (fst (run sample_idle
       [UI (KeyDown ''Enter''), UI (Change ''x''), UI Click,
        Create_failed (sample_validation_error [''Content too long''])])) = ''hi''
   \<and> input (fst (step sample_pending (Create_failed \<lparr>error_data = None\<rparr>))) = ''hi''"
  using create_error_keeps_draft
    [of sample_pending "\<lparr>error_data = None\<rparr>" _ sample_idle "KeyDown ''Enter''"
        "[Change ''x'', Click]"]
    create_error_keeps_draft
    [of sample_pending "sample_validation_error [''Content too long'']" _ sample_idle "KeyDown ''Enter''"
        "[Change ''x'', Click]"]
  by (simp add: sample_idle_def sample_pending_def)

subsection \<open>Submitting\<close>

text \<open>
  C5: with a draft that is not empty, a submit action (Enter or the Post button) while a
  create call is pending changes nothing and sends nothing; after any sequence of events
  since the component mounted, at most one create call is in flight; and two submit
  actions in a row on an idle form send exactly one create call, with the draft.
\<close>

theorem one_create_in_flight:
  "(isPosting s \<and> input s \<noteq> '''' \<and> is_submit a \<longrightarrow> step s (UI a) = (s, []))
   \<and> in_flight (fst (run (mount u) evs)) \<le> 1
   \<and> (user t \<noteq> None \<and> \<not> isPosting t \<and> input t \<noteq> '''' \<and> is_submit a \<and> is_submit b
        \<longrightarrow> creates (snd (run t [UI a, UI b])) = [input t])"
proof -
  have "step s (UI a) = (s, [])" if "isPosting s"
    using that by (simp add: step_def deliver_pending)
  moreover have "in_flight (fst (run (mount u) evs)) \<le> 1"
    by (rule in_flight_le_1)
  moreover have "creates (snd (run t [UI a, UI b])) = [input t]"
    if "user t \<noteq> None" "\<not> isPosting t" "input t \<noteq> ''''" "is_submit a" "is_submit b"
  proof -
    from that obtain w where w: "user t = Some w"
      by auto
    have a: "creates (deliver t a) = [input t]" "isPosting (foldl perform t (deliver t a))"
      using that w by (cases a; simp add: deliver_idle onKeyDown_def onClick_def)+
    have "deliver (foldl perform t (deliver t a)) b = []"
      using a(2) by (rule deliver_pending)
    then show ?thesis
      using a(1) by (simp add: step_def)
  qed
  ultimately show ?thesis
    by blast
qed

theorem one_create_in_flight_witness:
  "step sample_pending (UI (KeyDown ''Enter'')) = (sample_pending, [])
   \<and> in_flight (fst (run (mount (Some sample_user))
         [UI (Change ''hi''), UI (KeyDown ''Enter''), UI (KeyDown ''Enter''), UI Click])) \<le> 1
   \<and> creates (snd (run sample_idle [UI (KeyDown ''Enter''), UI (KeyDown ''Enter'')])) = [''hi'']"
  using one_create_in_flight
    [of sample_pending "KeyDown ''Enter''" "Some sample_user"
        "[UI (Change ''hi''), UI (KeyDown ''Enter''), UI (KeyDown ''Enter''), UI Click]"
        sample_idle "KeyDown ''Enter''"]
  by (simp add: sample_pending_def sample_idle_def)

text \<open>
  C6: the Enter key sends a create call exactly when the Post button does, with the same
  content: when a user is signed in, the draft is not empty and no create call is
  pending. Pressed in the text field (the field can hold the focus), Enter does what the
  button does, preceded by \<^verbatim>\<open>preventDefault()\<close>, and leaves the same state.
\<close>

theorem enter_key_submits_like_button:
  "creates (deliver s (KeyDown ''Enter'')) = creates (deliver s Click)
   \<and> creates (deliver s Click)
       = (if user s \<noteq> None \<and> input s \<noteq> '''' \<and> \<not> isPosting s then [input s] else [])
   \<and> (input_focusable s \<longrightarrow>
        deliver s (KeyDown ''Enter'') = PreventDefault # deliver s Click
        \<and> fst (step s (UI (KeyDown ''Enter''))) = fst (step s (UI Click)))"
  by (cases "user s")
     (simp_all add: deliver_def CreatePostWizard_def input_focusable_def step_def
        onKeyDown_def onClick_def)

theorem enter_key_submits_like_button_witness:
  "input_focusable sample_idle
   \<and> deliver sample_idle (KeyDown ''Enter'') = [PreventDefault, Mutate ''hi'']
   \<and> deliver sample_idle Click = [Mutate ''hi'']
   \<and> creates (deliver sample_pending (KeyDown ''Enter'')) = []"
proof -
  have f: "input_focusable sample_idle"
    by (simp add: input_focusable_def CreatePostWizard_def sample_idle_def)
  have c: "deliver sample_idle Click = [Mutate ''hi'']"
    by (simp add: deliver_def CreatePostWizard_def onClick_def sample_idle_def)
  have p: "creates (deliver sample_pending Click) = []"
    by (simp add: deliver_def CreatePostWizard_def sample_pending_def)
  from enter_key_submits_like_button [of sample_idle]
       enter_key_submits_like_button [of sample_pending] f c p
  show ?thesis
    by simp
qed

subsection \<open>Signed out\<close>

text \<open>
  C10: without a current user the component renders nothing (\<^verbatim>\<open>null\<close>): there is no text
  field, no button and no spinner, so no key, change or click reaches a handler, and no
  sequence of them changes the state or sends a create call.
\<close>

theorem signed_out_renders_nothing:
  assumes "user s = None"
  shows "CreatePostWizard s = None
         \<and> deliver s ev = []
         \<and> step s (UI ev) = (s, [])
         \<and> run s (map UI us) = (s, [])"
  using assms by (simp add: CreatePostWizard_def deliver_signed_out step_def run_signed_out)

theorem signed_out_renders_nothing_witness:
  "CreatePostWizard (mount None) = None
   \<and> deliver (mount None) (KeyDown ''Enter'') = []
   \<and> run (mount None) (map UI [Change ''hi'', KeyDown ''Enter'', Click]) = (mount None, [])"
proof -
  have "user (mount None) = None"
    by (simp add: mount_def)
  from signed_out_renders_nothing [OF this] show ?thesis
    by blast
qed

end
